theory Spec2Isabelle
  imports Complex_Main "HOL-Library.Sublist"
begin

section \<open>Data model (src/types/index.ts)\<close>

text \<open>
  JavaScript numbers that hold counts, page numbers and sizes are modelled as \<open>int\<close>:
  the model covers integer-valued numbers in the range where the arithmetic of the
  source is exact. \<open>string | null\<close> is \<open>string option\<close>; \<open>null\<close> and \<open>undefined\<close> are both
  \<open>None\<close>.
\<close>

datatype UserRole = Role_admin | Role_manager | Role_user

record User =
  id_user :: string
  email :: string
  firstName :: string
  lastName :: string
  role :: UserRole
  avatar :: "string option"
  department :: "string option"
  createdAt :: string
  updatedAt :: string
  isActive :: bool

text \<open>The object spread \<open>{ ...old, ...patch }\<close> on one field: the patch wins where it has the key.\<close>

definition spread :: "'a \<Rightarrow> 'a option \<Rightarrow> 'a" where
  "spread old patch = (case patch of None \<Rightarrow> old | Some v \<Rightarrow> v)"

record AuthResponse =
  user :: User
  token :: string
  refreshToken :: string
  expiresIn :: int

record AuthState =
  user :: "User option"
  token :: "string option"
  refreshToken :: "string option"
  isAuthenticated :: bool
  isLoading :: bool
  error :: "string option"

datatype SortDirection = asc | desc

record SortConfig =
  field :: string
  direction :: SortDirection

datatype FilterOperator = Op_eq | Op_contains | Op_gt | Op_lt | Op_gte | Op_lte | Op_in

datatype FilterValue = StrV string | NumV int | StrsV "string list" | NumsV "int list"

record FilterConfig =
  field :: string
  operator :: FilterOperator
  "value" :: FilterValue

text \<open>
  \<open>TableState\<close> and the \<open>pagination\<close> object of a \<open>PaginatedResponse\<close> both start with
  \<open>page\<close> and \<open>pageSize\<close>; the two fields are declared once and extended.
\<close>

record Paging =
  page :: int
  pageSize :: int

record TableState = Paging +
  sort :: "SortConfig option"
  filters :: "FilterConfig list"
  search :: string

record Pagination = Paging +
  total :: int
  totalPages :: int

text \<open>\<open>Partial<TableState>\<close>. \<open>sort\<close> may be present with the value \<open>null\<close>.\<close>

record PartialTableState =
  page_opt :: "int option"
  pageSize_opt :: "int option"
  sort_opt :: "SortConfig option option"
  filters_opt :: "FilterConfig list option"
  search_opt :: "string option"

record 'a PaginatedResponse =
  data :: "'a list"
  pagination :: Pagination

section \<open>JavaScript truthiness of strings\<close>

text \<open>\<open>if (s)\<close> and \<open>!!s\<close> on a \<open>string | null\<close>: \<open>null\<close> and the empty string are falsy.\<close>

definition truthy :: "string option \<Rightarrow> bool" where
  "truthy s = (case s of None \<Rightarrow> False | Some v \<Rightarrow> v \<noteq> [])"

text \<open>\<open>a || b\<close> where \<open>a\<close> is \<open>string | undefined\<close> and \<open>b\<close> a string.\<close>

definition or_else :: "string option \<Rightarrow> string \<Rightarrow> string" where
  "or_else a b = (if truthy a then the a else b)"

section \<open>Users slice (src/features/users/usersSlice.ts)\<close>

record UsersState =
  users :: "User list"
  selectedUser :: "User option"
  tableState :: TableState
  pagination :: Pagination
  isLoading :: bool
  isCreating :: bool
  isUpdating :: bool
  isDeleting :: bool
  error :: "string option"


text \<open>\<open>{ ...state.tableState, ...action.payload }\<close>\<close>

definition merge_tableState :: "TableState \<Rightarrow> PartialTableState \<Rightarrow> TableState" where
  "merge_tableState ts p =
     \<lparr> page = spread (page ts) (page_opt p),
       pageSize = spread (pageSize ts) (pageSize_opt p),
       sort = spread (sort ts) (sort_opt p),
       filters = spread (filters ts) (filters_opt p),
       search = spread (search ts) (search_opt p) \<rparr>"

definition setTableState :: "UsersState \<Rightarrow> PartialTableState \<Rightarrow> UsersState" where
  "setTableState state payload =
     state\<lparr>tableState := merge_tableState (tableState state) payload\<rparr>"

definition setSelectedUser :: "UsersState \<Rightarrow> User option \<Rightarrow> UsersState" where
  "setSelectedUser state payload = state\<lparr>selectedUser := payload\<rparr>"

definition users_clearError :: "UsersState \<Rightarrow> UsersState" where
  "users_clearError state = state\<lparr>UsersState.error := None\<rparr>"

text \<open>\<open>Array.prototype.findIndex\<close>: the first index whose element satisfies the test, if any.\<close>

fun findIndex :: "('a \<Rightarrow> bool) \<Rightarrow> 'a list \<Rightarrow> nat option" where
  "findIndex P [] = None"
| "findIndex P (x # xs) =
     (if P x then Some 0 else (case findIndex P xs of None \<Rightarrow> None | Some i \<Rightarrow> Some (Suc i)))"

definition optimisticUpdateUserStatus :: "UsersState \<Rightarrow> string \<Rightarrow> bool \<Rightarrow> UsersState" where
  "optimisticUpdateUserStatus state uid active =
     (case findIndex (\<lambda>u. id_user u = uid) (users state) of
        None \<Rightarrow> state
      | Some i \<Rightarrow> state\<lparr>users := (users state)[i := ((users state) ! i)\<lparr>isActive := active\<rparr>]\<rparr>)"

definition fetchUsers_pending :: "UsersState \<Rightarrow> UsersState" where
  "fetchUsers_pending state = state\<lparr>UsersState.isLoading := True, UsersState.error := None\<rparr>"

definition fetchUsers_fulfilled :: "UsersState \<Rightarrow> User PaginatedResponse \<Rightarrow> UsersState" where
  "fetchUsers_fulfilled state payload =
     state\<lparr>UsersState.isLoading := False,
           users := data payload,
           UsersState.pagination := PaginatedResponse.pagination payload\<rparr>"

text \<open>The argument is \<open>action.error.message\<close>, which may be undefined.\<close>

definition fetchUsers_rejected :: "UsersState \<Rightarrow> string option \<Rightarrow> UsersState" where
  "fetchUsers_rejected state message =
     state\<lparr>UsersState.isLoading := False,
           UsersState.error := Some (or_else message ''Failed to fetch users'')\<rparr>"

definition fetchUserById_pending :: "UsersState \<Rightarrow> UsersState" where
  "fetchUserById_pending state = state\<lparr>UsersState.isLoading := True\<rparr>"

definition fetchUserById_fulfilled :: "UsersState \<Rightarrow> User \<Rightarrow> UsersState" where
  "fetchUserById_fulfilled state payload =
     state\<lparr>UsersState.isLoading := False, selectedUser := Some payload\<rparr>"

definition fetchUserById_rejected :: "UsersState \<Rightarrow> string option \<Rightarrow> UsersState" where
  "fetchUserById_rejected state message =
     state\<lparr>UsersState.isLoading := False,
           UsersState.error := Some (or_else message ''Failed to fetch user'')\<rparr>"

definition createUser_pending :: "UsersState \<Rightarrow> UsersState" where
  "createUser_pending state = state\<lparr>isCreating := True, UsersState.error := None\<rparr>"

definition createUser_fulfilled :: "UsersState \<Rightarrow> User \<Rightarrow> UsersState" where
  "createUser_fulfilled state payload =
     state\<lparr>isCreating := False,
           users := payload # users state,
           UsersState.pagination :=
             (UsersState.pagination state)\<lparr>total := total (UsersState.pagination state) + 1\<rparr>\<rparr>"

text \<open>The argument is \<open>action.payload as string\<close>: the value given to \<open>rejectWithValue\<close>, if any.\<close>

definition createUser_rejected :: "UsersState \<Rightarrow> string option \<Rightarrow> UsersState" where
  "createUser_rejected state payload = state\<lparr>isCreating := False, UsersState.error := payload\<rparr>"

definition updateUser_pending :: "UsersState \<Rightarrow> UsersState" where
  "updateUser_pending state = state\<lparr>isUpdating := True, UsersState.error := None\<rparr>"

definition updateUser_fulfilled :: "UsersState \<Rightarrow> User \<Rightarrow> UsersState" where
  "updateUser_fulfilled state payload =
     (let state1 = state\<lparr>isUpdating := False\<rparr>;
          state2 = (case findIndex (\<lambda>u. id_user u = id_user payload) (users state1) of
                      None \<Rightarrow> state1
                    | Some index \<Rightarrow> state1\<lparr>users := (users state1)[index := payload]\<rparr>)
      in (case selectedUser state2 of
            None \<Rightarrow> state2
          | Some sel \<Rightarrow>
              if id_user sel = id_user payload then state2\<lparr>selectedUser := Some payload\<rparr>
              else state2))"

definition updateUser_rejected :: "UsersState \<Rightarrow> string option \<Rightarrow> UsersState" where
  "updateUser_rejected state payload = state\<lparr>isUpdating := False, UsersState.error := payload\<rparr>"

definition deleteUser_pending :: "UsersState \<Rightarrow> UsersState" where
  "deleteUser_pending state = state\<lparr>isDeleting := True, UsersState.error := None\<rparr>"

text \<open>The payload is the id that was passed to the thunk.\<close>

definition deleteUser_fulfilled :: "UsersState \<Rightarrow> string \<Rightarrow> UsersState" where
  "deleteUser_fulfilled state payload =
     (let state1 =
            state\<lparr>isDeleting := False,
                  users := filter (\<lambda>u. id_user u \<noteq> payload) (users state),
                  UsersState.pagination :=
                    (UsersState.pagination state)\<lparr>total := total (UsersState.pagination state) - 1\<rparr>\<rparr>
      in (case selectedUser state1 of
            None \<Rightarrow> state1
          | Some sel \<Rightarrow> if id_user sel = payload then state1\<lparr>selectedUser := None\<rparr> else state1))"

definition deleteUser_rejected :: "UsersState \<Rightarrow> string option \<Rightarrow> UsersState" where
  "deleteUser_rejected state payload = state\<lparr>isDeleting := False, UsersState.error := payload\<rparr>"

section \<open>Configuration (config module)\<close>

definition tokenKey :: string where
  "tokenKey = ''enterprise_auth_token''"

definition refreshTokenKey :: string where
  "refreshTokenKey = ''enterprise_refresh_token''"

definition pageSizeOptions :: "int list" where
  "pageSizeOptions = [10, 25, 50, 100]"

section \<open>Auth slice (src/features/auth/authSlice.ts)\<close>

text \<open>\<open>localStorage\<close>: \<open>getItem\<close> is the lookup, \<open>removeItem\<close> deletes the key.\<close>

type_synonym LocalStorage = "string \<rightharpoonup> string"

definition auth_initialState :: "LocalStorage \<Rightarrow> AuthState" where
  "auth_initialState ls =
     \<lparr> user = None,
       token = ls tokenKey,
       refreshToken = ls refreshTokenKey,
       isAuthenticated = truthy (ls tokenKey),
       isLoading = False,
       error = None \<rparr>"

definition setCredentials :: "AuthState \<Rightarrow> AuthResponse \<Rightarrow> AuthState" where
  "setCredentials state payload =
     state\<lparr>AuthState.user := Some (AuthResponse.user payload),
           AuthState.token := Some (AuthResponse.token payload),
           AuthState.refreshToken := Some (AuthResponse.refreshToken payload),
           isAuthenticated := True,
           AuthState.error := None\<rparr>"

definition logout :: "AuthState \<Rightarrow> AuthState" where
  "logout state =
     state\<lparr>AuthState.user := None,
           AuthState.token := None,
           AuthState.refreshToken := None,
           isAuthenticated := False,
           AuthState.error := None\<rparr>"

text \<open>The \<open>logout\<close> reducer also removes both keys from \<open>localStorage\<close>.\<close>

definition logout_localStorage :: "LocalStorage \<Rightarrow> LocalStorage" where
  "logout_localStorage ls = (ls(tokenKey := None))(refreshTokenKey := None)"

definition auth_clearError :: "AuthState \<Rightarrow> AuthState" where
  "auth_clearError state = state\<lparr>AuthState.error := None\<rparr>"

text \<open>
  \<open>updateUser\<close>: when a user is held, it is replaced by the spread
  \<open>{ ...state.user, ...action.payload }\<close>. The payload, a \<open>Partial<User>\<close>, is represented by
  what the spread does with it: the function from the user held to the user that results.
\<close>

definition auth_updateUser :: "AuthState \<Rightarrow> (User \<Rightarrow> User) \<Rightarrow> AuthState" where
  "auth_updateUser state payload =
     (case AuthState.user state of
        None \<Rightarrow> state
      | Some u \<Rightarrow> state\<lparr>AuthState.user := Some (payload u)\<rparr>)"

definition loginAsync_pending :: "AuthState \<Rightarrow> AuthState" where
  "loginAsync_pending state = state\<lparr>AuthState.isLoading := True, AuthState.error := None\<rparr>"

definition loginAsync_fulfilled :: "AuthState \<Rightarrow> AuthResponse \<Rightarrow> AuthState" where
  "loginAsync_fulfilled state payload =
     state\<lparr>AuthState.isLoading := False,
           AuthState.user := Some (AuthResponse.user payload),
           AuthState.token := Some (AuthResponse.token payload),
           AuthState.refreshToken := Some (AuthResponse.refreshToken payload),
           isAuthenticated := True\<rparr>"

definition loginAsync_rejected :: "AuthState \<Rightarrow> string option \<Rightarrow> AuthState" where
  "loginAsync_rejected state payload =
     state\<lparr>AuthState.isLoading := False, AuthState.error := payload\<rparr>"

definition logoutAsync_fulfilled :: "AuthState \<Rightarrow> AuthState" where
  "logoutAsync_fulfilled state =
     state\<lparr>AuthState.user := None,
           AuthState.token := None,
           AuthState.refreshToken := None,
           isAuthenticated := False\<rparr>"

definition refreshTokenAsync_fulfilled :: "AuthState \<Rightarrow> AuthResponse \<Rightarrow> AuthState" where
  "refreshTokenAsync_fulfilled state payload =
     state\<lparr>AuthState.token := Some (AuthResponse.token payload),
           AuthState.refreshToken := Some (AuthResponse.refreshToken payload),
           AuthState.user := Some (AuthResponse.user payload),
           isAuthenticated := True\<rparr>"

definition refreshTokenAsync_rejected :: "AuthState \<Rightarrow> AuthState" where
  "refreshTokenAsync_rejected state =
     state\<lparr>AuthState.user := None,
           AuthState.token := None,
           AuthState.refreshToken := None,
           isAuthenticated := False\<rparr>"

text \<open>
  The actions the slice handles. \<open>Unhandled\<close> stands for every other action of the
  store (among them \<open>logoutAsync.pending\<close> and \<open>refreshTokenAsync.pending\<close>), for which the
  slice has no case and returns the state as it is.
\<close>

datatype AuthAction =
    SetCredentials AuthResponse
  | Logout
  | ClearError
  | UpdateUser "User \<Rightarrow> User"
  | LoginAsync_pending
  | LoginAsync_fulfilled AuthResponse
  | LoginAsync_rejected "string option"
  | LogoutAsync_fulfilled
  | RefreshTokenAsync_fulfilled AuthResponse
  | RefreshTokenAsync_rejected
  | Unhandled

fun authReducer :: "AuthState \<Rightarrow> AuthAction \<Rightarrow> AuthState" where
  "authReducer state (SetCredentials payload) = setCredentials state payload"
| "authReducer state Logout = logout state"
| "authReducer state ClearError = auth_clearError state"
| "authReducer state (UpdateUser payload) = auth_updateUser state payload"
| "authReducer state LoginAsync_pending = loginAsync_pending state"
| "authReducer state (LoginAsync_fulfilled payload) = loginAsync_fulfilled state payload"
| "authReducer state (LoginAsync_rejected payload) = loginAsync_rejected state payload"
| "authReducer state LogoutAsync_fulfilled = logoutAsync_fulfilled state"
| "authReducer state (RefreshTokenAsync_fulfilled payload) = refreshTokenAsync_fulfilled state payload"
| "authReducer state RefreshTokenAsync_rejected = refreshTokenAsync_rejected state"
| "authReducer state Unhandled = state"

text \<open>The state after a sequence of actions, starting from the initial state.\<close>

definition auth_after :: "LocalStorage \<Rightarrow> AuthAction list \<Rightarrow> AuthState" where
  "auth_after ls actions = foldl authReducer (auth_initialState ls) actions"

text \<open>The invariant of claim C10.\<close>

definition auth_consistent :: "AuthState \<Rightarrow> bool" where
  "auth_consistent state = (isAuthenticated state = (AuthState.token state \<noteq> None))"

section \<open>Query handlers of the pages (src/pages/UsersPage.tsx, src/pages/ProductsPage.tsx)\<close>

definition no_change :: PartialTableState where
  "no_change =
     \<lparr> page_opt = None, pageSize_opt = None, sort_opt = None, filters_opt = None,
       search_opt = None \<rparr>"

text \<open>The effect on the debounced search text: \<open>setTableState({ search: debouncedSearch, page: 1 })\<close>.\<close>

definition updateSearch :: "UsersState \<Rightarrow> string \<Rightarrow> UsersState" where
  "updateSearch state debouncedSearch =
     setTableState state (no_change\<lparr>search_opt := Some debouncedSearch, page_opt := Some 1\<rparr>)"

definition handlePageChange :: "UsersState \<Rightarrow> int \<Rightarrow> UsersState" where
  "handlePageChange state p = setTableState state (no_change\<lparr>page_opt := Some p\<rparr>)"

definition handlePageSizeChange :: "UsersState \<Rightarrow> int \<Rightarrow> UsersState" where
  "handlePageSizeChange state n =
     setTableState state (no_change\<lparr>pageSize_opt := Some n, page_opt := Some 1\<rparr>)"

text \<open>
  The products page keeps the category filter in component state, beside the table state of
  the products slice (whose \<open>setTableState\<close> is the same merge as the users slice's), and
  fetches with \<open>{ page: tableState.page, pageSize: tableState.pageSize, search:
  debouncedSearch, category: categoryFilter }\<close>.
\<close>

record ProductsPage =
  tableState :: TableState
  debouncedSearch :: string
  categoryFilter :: string

record FetchProductsArgs = Paging +
  search :: string
  category :: string

definition fetchProducts_args :: "ProductsPage \<Rightarrow> FetchProductsArgs" where
  "fetchProducts_args st =
     \<lparr> page = page (ProductsPage.tableState st),
       pageSize = pageSize (ProductsPage.tableState st),
       search = debouncedSearch st,
       category = categoryFilter st \<rparr>"

definition setCategoryFilter :: "ProductsPage \<Rightarrow> string \<Rightarrow> ProductsPage" where
  "setCategoryFilter st c = st\<lparr>categoryFilter := c\<rparr>"

definition products_handlePageChange :: "ProductsPage \<Rightarrow> int \<Rightarrow> ProductsPage" where
  "products_handlePageChange st p =
     st\<lparr>ProductsPage.tableState :=
          merge_tableState (ProductsPage.tableState st) (no_change\<lparr>page_opt := Some p\<rparr>)\<rparr>"

definition products_handlePageSizeChange :: "ProductsPage \<Rightarrow> int \<Rightarrow> ProductsPage" where
  "products_handlePageSizeChange st n =
     st\<lparr>ProductsPage.tableState :=
          merge_tableState (ProductsPage.tableState st)
            (no_change\<lparr>pageSize_opt := Some n, page_opt := Some 1\<rparr>)\<rparr>"

section \<open>Mock API (src/services/mockApi.ts)\<close>

text \<open>
  \<open>Math.ceil(a / b)\<close> on integer-valued numbers. For \<open>b = 0\<close> the source yields \<open>Infinity\<close>
  or \<open>NaN\<close>, which \<open>int\<close> does not hold: the model is meant for \<open>b \<noteq> 0\<close>.
\<close>

definition Math_ceil_div :: "int \<Rightarrow> int \<Rightarrow> int" where
  "Math_ceil_div a b = \<lceil>real_of_int a / real_of_int b\<rceil>"

text \<open>
  \<open>String.prototype.toLowerCase\<close> belongs to the JavaScript engine; the functions that call
  it take it as their first argument. On text of ASCII characters it is the function below,
  which concrete runs use.
\<close>

definition toLowerCase_ascii :: "string \<Rightarrow> string" where
  "toLowerCase_ascii s =
     map (\<lambda>c. let n = (of_char c :: nat) in if 65 \<le> n \<and> n \<le> 90 then char_of (n + 32) else c) s"

text \<open>\<open>hay.includes(needle)\<close>\<close>

definition includes_str :: "string \<Rightarrow> string \<Rightarrow> bool" where
  "includes_str hay needle = sublist needle hay"

text \<open>
  \<open>Array.prototype.slice(start, end)\<close>: a negative index counts from the end, and both are
  cut to the bounds of the array.
\<close>

definition slice :: "'a list \<Rightarrow> int \<Rightarrow> int \<Rightarrow> 'a list" where
  "slice xs start end_idx =
     (let len = int (length xs);
          k = (if start < 0 then max (len + start) 0 else min start len);
          final = (if end_idx < 0 then max (len + end_idx) 0 else min end_idx len)
      in take (nat (final - k)) (drop (nat k) xs))"

definition user_matches :: "(string \<Rightarrow> string) \<Rightarrow> string \<Rightarrow> User \<Rightarrow> bool" where
  "user_matches toLowerCase searchLower u =
     (includes_str (toLowerCase (firstName u)) searchLower
      \<or> includes_str (toLowerCase (lastName u)) searchLower
      \<or> includes_str (toLowerCase (email u)) searchLower)"

text \<open>The users that match the query: all of them when the search text is empty.\<close>

definition filtered_users :: "(string \<Rightarrow> string) \<Rightarrow> User list \<Rightarrow> string \<Rightarrow> User list" where
  "filtered_users toLowerCase mockUsers searchText =
     (if searchText \<noteq> []
      then filter (user_matches toLowerCase (toLowerCase searchText)) mockUsers
      else mockUsers)"

text \<open>
  \<open>mockApi.getUsers\<close>, with \<open>toLowerCase\<close> and the module variable \<open>mockUsers\<close> as first
  arguments.
\<close>

definition getUsers ::
  "(string \<Rightarrow> string) \<Rightarrow> User list \<Rightarrow> int \<Rightarrow> int \<Rightarrow> string \<Rightarrow> User PaginatedResponse" where
  "getUsers toLowerCase mockUsers p ps searchText =
     (let filtered = filtered_users toLowerCase mockUsers searchText;
          start = (p - 1) * ps;
          end_idx = start + ps
      in \<lparr> data = slice filtered start end_idx,
           pagination =
             \<lparr> page = p, pageSize = ps, total = int (length filtered),
               totalPages = Math_ceil_div (int (length filtered)) ps \<rparr> \<rparr>)"

text \<open>
  The admin entry of \<open>demoUsers\<close>; the argument is the time stamp \<open>new Date().toISOString()\<close>
  taken when the module is loaded.
\<close>

definition demo_admin :: "string \<Rightarrow> User" where
  "demo_admin now =
     \<lparr> id_user = ''admin-1'',
       email = ''admin@enterprise.com'',
       firstName = ''Admin'',
       lastName = ''User'',
       role = Role_admin,
       avatar = None,
       department = Some ''IT'',
       createdAt = now,
       updatedAt = now,
       isActive = True \<rparr>"

section \<open>Pagination hook (src/hooks/usePagination.ts)\<close>

text \<open>
  The hook's state is \<open>page\<close> and \<open>pageSize\<close>; \<open>totalItems\<close> is a property given by the
  caller at every render.
\<close>

definition usePagination_init :: "int \<Rightarrow> int \<Rightarrow> Paging" where
  "usePagination_init initialPage initialPageSize =
     \<lparr> page = initialPage, pageSize = initialPageSize \<rparr>"

definition hook_totalPages :: "int \<Rightarrow> Paging \<Rightarrow> int" where
  "hook_totalPages totalItems st = Math_ceil_div totalItems (pageSize st)"

definition hook_startIndex :: "Paging \<Rightarrow> int" where
  "hook_startIndex st = (page st - 1) * pageSize st"

definition hook_endIndex :: "int \<Rightarrow> Paging \<Rightarrow> int" where
  "hook_endIndex totalItems st = min (hook_startIndex st + pageSize st - 1) (totalItems - 1)"







definition pageNumbers :: "int \<Rightarrow> Paging \<Rightarrow> int list" where
  "pageNumbers totalItems st =
     (let maxVisible = 5;
          half = 2;
          start = max 1 (page st - half);
          end_idx = min (hook_totalPages totalItems st) (start + maxVisible - 1);
          start' = (if end_idx - start + 1 < maxVisible then max 1 (end_idx - maxVisible + 1)
                    else start)
      in [start'..end_idx])"

section \<open>Pagination buttons of the data table (src/components/common/DataTable.tsx)\<close>



section \<open>Authenticated transport (src/services/api.ts)\<close>

text \<open>
  The \<open>status\<close> of a \<open>FetchBaseQueryError\<close>: an HTTP status code or one of the named
  failures of the fetch itself.
\<close>

datatype FetchStatus = Http int | FETCH_ERROR | PARSING_ERROR | TIMEOUT_ERROR | CUSTOM_ERROR

text \<open>
  What \<open>baseQuery\<close> resolves to: \<open>{ data }\<close> with a truthy value, \<open>{ data }\<close> with a falsy
  one (an empty body), or \<open>{ error }\<close>.
\<close>

datatype 'a QueryResult = QData 'a | QNoData | QError FetchStatus

datatype Body = NoBody | RefreshBody string | JsonBody string

record FetchArgs =
  url :: string
  "method" :: string
  body :: Body

text \<open>
  A call as it leaves the client: what was asked, and the \<open>Authorization\<close> header that
  \<open>prepareHeaders\<close> attached. \<open>kind\<close> is a label of the log only, telling which of the
  three calls of \<open>baseQueryWithReauth\<close> sent it.
\<close>

datatype CallKind = Original | Refresh | Retry

record Sent =
  kind :: CallKind
  args :: FetchArgs
  authorization :: "string option"

text \<open>
  The store as the transport sees it: the auth state (\<open>api.getState().auth\<close>),
  \<open>localStorage\<close>, and two logs, of the actions given to \<open>api.dispatch\<close> and of the calls
  sent.
\<close>

record Store =
  auth :: AuthState
  localStorage :: LocalStorage
  dispatched :: "AuthAction list"
  sent :: "Sent list"

definition dispatch :: "AuthAction \<Rightarrow> Store \<Rightarrow> Store" where
  "dispatch a api =
     api\<lparr>auth := authReducer (auth api) a,
         localStorage := (if a = Logout then logout_localStorage (localStorage api)
                          else localStorage api),
         dispatched := dispatched api @ [a]\<rparr>"

text \<open>
  \<open>prepareHeaders\<close>: the bearer token, when the state holds a truthy one. The
  \<open>Content-Type\<close> header, the same on every call, is left out.
\<close>

definition prepareHeaders :: "Store \<Rightarrow> string option" where
  "prepareHeaders api =
     (if truthy (AuthState.token (auth api))
      then Some (''Bearer '' @ the (AuthState.token (auth api))) else None)"

text \<open>Sending a call: the headers are taken from the state at the time of the call.\<close>

definition send :: "CallKind \<Rightarrow> FetchArgs \<Rightarrow> Store \<Rightarrow> Store" where
  "send k a api =
     api\<lparr>sent := sent api @ [\<lparr> kind = k, args = a, authorization = prepareHeaders api \<rparr>]\<rparr>"

text \<open>
  \<open>await baseQuery(args, api, extraOptions)\<close>: the call is sent and the response, which the
  server decides, is its value.
\<close>

definition baseQuery :: "CallKind \<Rightarrow> FetchArgs \<Rightarrow> 'r QueryResult \<Rightarrow> Store \<Rightarrow> 'r QueryResult \<times> Store" where
  "baseQuery k a response api = (response, send k a api)"

text \<open>\<open>result.error && result.error.status === 401\<close>\<close>

definition is_401 :: "'r QueryResult \<Rightarrow> bool" where
  "is_401 result = (case result of QError (Http n) \<Rightarrow> n = 401 | _ \<Rightarrow> False)"

definition refresh_args :: "string \<Rightarrow> FetchArgs" where
  "refresh_args rt = \<lparr> url = ''/auth/refresh'', method = ''POST'', body = RefreshBody rt \<rparr>"

text \<open>The responses the server gives to the (up to) three calls of one request.\<close>

record 'r Responses =
  first_response :: "'r QueryResult"
  refresh_response :: "AuthResponse QueryResult"
  retry_response :: "'r QueryResult"

definition baseQueryWithReauth :: "FetchArgs \<Rightarrow> 'r Responses \<Rightarrow> Store \<Rightarrow> 'r QueryResult \<times> Store" where
  "baseQueryWithReauth a env api =
     (let (result, api1) = baseQuery Original a (first_response env) api
      in if is_401 result then
           (let refreshToken = AuthState.refreshToken (auth api1)
            in if truthy refreshToken then
                 (let (refreshResult, api2) =
                        baseQuery Refresh (refresh_args (the refreshToken)) (refresh_response env) api1
                  in (case refreshResult of
                        QData authData \<Rightarrow>
                          baseQuery Retry a (retry_response env) (dispatch (SetCredentials authData) api2)
                      | _ \<Rightarrow> (result, dispatch Logout api2)))
               else (result, dispatch Logout api1))
         else (result, api1))"

subsection \<open>Requests in flight together\<close>

text \<open>
  JavaScript runs one request until its next \<open>await\<close>. A request in flight is at one of the
  three \<open>await\<close>s of \<open>baseQueryWithReauth\<close>, holding its local variables, or has returned.
\<close>

datatype 'r Task =
    AwaitFirst FetchArgs
  | AwaitRefresh FetchArgs "'r QueryResult"
  | AwaitRetry FetchArgs
  | Returned "'r QueryResult"

text \<open>Calling \<open>baseQueryWithReauth\<close>: it runs up to the first \<open>await\<close>.\<close>

definition start :: "FetchArgs \<Rightarrow> Store \<Rightarrow> 'r Task \<times> Store" where
  "start a api = (AwaitFirst a, send Original a api)"

text \<open>The awaited response arrives: the request runs on to its next \<open>await\<close> or returns.\<close>

fun resume :: "'r Responses \<Rightarrow> 'r Task \<Rightarrow> Store \<Rightarrow> 'r Task \<times> Store" where
  "resume env (AwaitFirst a) api =
     (let result = first_response env
      in if is_401 result then
           (let refreshToken = AuthState.refreshToken (auth api)
            in if truthy refreshToken
               then (AwaitRefresh a result, send Refresh (refresh_args (the refreshToken)) api)
               else (Returned result, dispatch Logout api))
         else (Returned result, api))"
| "resume env (AwaitRefresh a result) api =
     (case refresh_response env of
        QData authData \<Rightarrow> (AwaitRetry a, send Retry a (dispatch (SetCredentials authData) api))
      | _ \<Rightarrow> (Returned result, dispatch Logout api))"
| "resume env (AwaitRetry a) api = (Returned (retry_response env), api)"
| "resume env (Returned result) api = (Returned result, api)"

text \<open>
  Several requests share the store. \<open>step envs i\<close> delivers the response request \<open>i\<close> is
  waiting for; a schedule is the order in which responses arrive.
\<close>

definition step :: "'r Responses list \<Rightarrow> 'r Task list \<times> Store \<Rightarrow> nat \<Rightarrow> 'r Task list \<times> Store" where
  "step envs sys i =
     (if i < length (fst sys) \<and> i < length envs
      then (let (t, api) = resume (envs ! i) (fst sys ! i) (snd sys)
            in ((fst sys)[i := t], api))
      else sys)"

definition run :: "'r Responses list \<Rightarrow> nat list \<Rightarrow> 'r Task list \<times> Store \<Rightarrow> 'r Task list \<times> Store" where
  "run envs schedule sys = foldl (step envs) sys schedule"

text \<open>All requests are issued, one after the other, before any response arrives.\<close>

fun start_all :: "FetchArgs list \<Rightarrow> Store \<Rightarrow> 'r Task list \<times> Store" where
  "start_all [] api = ([], api)"
| "start_all (a # as) api =
     (let (t, api1) = start a api; (ts, api2) = start_all as api1 in (t # ts, api2))"

definition calls_of :: "CallKind \<Rightarrow> Store \<Rightarrow> nat" where
  "calls_of k api = length (filter (\<lambda>c. kind c = k) (sent api))"

definition logout_signals :: "Store \<Rightarrow> nat" where
  "logout_signals api = length (filter (\<lambda>a. a = Logout) (dispatched api))"

subsection \<open>A signed-in session and its requests, for concrete runs\<close>

definition example_store :: Store where
  "example_store =
     \<lparr> auth = \<lparr> user = Some (demo_admin ''t''), token = Some ''t0'', refreshToken = Some ''r0'',
                isAuthenticated = True, isLoading = False, error = None \<rparr>,
       localStorage = [tokenKey \<mapsto> ''t0'', refreshTokenKey \<mapsto> ''r0''],
       dispatched = [],
       sent = [] \<rparr>"

definition example_args :: FetchArgs where
  "example_args = \<lparr> url = ''/users?page=1&pageSize=25&search='', method = ''GET'', body = NoBody \<rparr>"

definition example_authResponse :: AuthResponse where
  "example_authResponse =
     \<lparr> AuthResponse.user = demo_admin ''t'', AuthResponse.token = ''t1'',
       AuthResponse.refreshToken = ''r1'', expiresIn = 3600 \<rparr>"

definition all_401 :: "unit Responses" where
  "all_401 =
     \<lparr> first_response = QError (Http 401),
       refresh_response = QError (Http 401),
       retry_response = QError (Http 401) \<rparr>"

definition refreshed_then_401 :: "unit Responses" where
  "refreshed_then_401 =
     \<lparr> first_response = QError (Http 401),
       refresh_response = QData example_authResponse,
       retry_response = QError (Http 401) \<rparr>"

text \<open>
  How many more calls of a kind, and how many more logout actions, a request can still
  cause from where it is.
\<close>

fun refresh_budget :: "'r Task \<Rightarrow> nat" where
  "refresh_budget (AwaitFirst a) = 1"
| "refresh_budget (AwaitRefresh a result) = 0"
| "refresh_budget (AwaitRetry a) = 0"
| "refresh_budget (Returned result) = 0"

fun retry_budget :: "'r Task \<Rightarrow> nat" where
  "retry_budget (AwaitFirst a) = 1"
| "retry_budget (AwaitRefresh a result) = 1"
| "retry_budget (AwaitRetry a) = 0"
| "retry_budget (Returned result) = 0"

section \<open>Properties of the users slice\<close>

lemma or_else_nonempty: "b \<noteq> [] \<Longrightarrow> or_else a b \<noteq> []"
  by (cases a) (simp_all add: or_else_def truthy_def)

text \<open>
  C8. A successful create followed by a successful delete of the id of the created entity
  restores \<open>pagination.total\<close>: \<open>createUser.fulfilled\<close> adds exactly 1 and
  \<open>deleteUser.fulfilled\<close> subtracts exactly 1, with the \<open>pending\<close> actions of both thunks in
  between leaving the total alone.
\<close>

theorem create_then_delete_restores_total:
  "total (UsersState.pagination (createUser_fulfilled (createUser_pending state) u))
     = total (UsersState.pagination state) + 1
   \<and> total (UsersState.pagination (deleteUser_fulfilled (deleteUser_pending state) i))
     = total (UsersState.pagination state) - 1
   \<and> total (UsersState.pagination
        (deleteUser_fulfilled
           (deleteUser_pending (createUser_fulfilled (createUser_pending state) u))
           (id_user u)))
     = total (UsersState.pagination state)"
  by (cases "selectedUser state")
     (simp_all add: createUser_fulfilled_def createUser_pending_def
        deleteUser_fulfilled_def deleteUser_pending_def Let_def)

text \<open>
  C5. A failed fetch (\<open>fetchUsers.pending\<close> then \<open>fetchUsers.rejected\<close>) records a non-empty
  error message and clears the loading flag, and the stored page (\<open>users\<close> and
  \<open>pagination\<close>) is exactly what it was before the call.
\<close>

theorem fetch_failure_keeps_page:
  "users (fetchUsers_rejected (fetchUsers_pending state) message) = users state
   \<and> UsersState.pagination (fetchUsers_rejected (fetchUsers_pending state) message)
       = UsersState.pagination state
   \<and> users (fetchUsers_rejected state message) = users state
   \<and> UsersState.pagination (fetchUsers_rejected state message) = UsersState.pagination state
   \<and> (\<exists>e. UsersState.error (fetchUsers_rejected (fetchUsers_pending state) message) = Some e
          \<and> e \<noteq> []
          \<and> e = (if truthy message then the message else ''Failed to fetch users''))
   \<and> \<not> UsersState.isLoading (fetchUsers_rejected (fetchUsers_pending state) message)"
  by (simp add: fetchUsers_rejected_def fetchUsers_pending_def or_else_def truthy_def
        split: option.splits)

section \<open>Properties of the auth slice\<close>

lemma authReducer_consistent:
  "auth_consistent state \<Longrightarrow> auth_consistent (authReducer state a)"
  by (cases a)
     (simp_all add: auth_consistent_def setCredentials_def logout_def auth_clearError_def
        auth_updateUser_def loginAsync_pending_def loginAsync_fulfilled_def
        loginAsync_rejected_def logoutAsync_fulfilled_def refreshTokenAsync_fulfilled_def
        refreshTokenAsync_rejected_def split: option.splits)

lemma foldl_authReducer_consistent:
  "auth_consistent state \<Longrightarrow> auth_consistent (foldl authReducer state actions)"
  by (induction actions arbitrary: state) (simp_all add: authReducer_consistent)

lemma auth_initialState_consistent:
  "ls tokenKey \<noteq> Some [] \<Longrightarrow> auth_consistent (auth_initialState ls)"
  by (cases "ls tokenKey") (simp_all add: auth_consistent_def auth_initialState_def truthy_def)

text \<open>
  C10, as stated, fails in the initial state itself when \<open>localStorage\<close> holds the empty
  string under the token key: \<open>token\<close> is then the (non-null) empty string, while
  \<open>isAuthenticated\<close>, computed with \<open>!!\<close>, is false.
\<close>

theorem auth_invariant_counterexample:
  "\<not> (\<forall>ls actions.
        isAuthenticated (auth_after ls actions) = (AuthState.token (auth_after ls actions) \<noteq> None))"
proof
  assume "\<forall>ls actions.
        isAuthenticated (auth_after ls actions) = (AuthState.token (auth_after ls actions) \<noteq> None)"
  then have "isAuthenticated (auth_after [tokenKey \<mapsto> []] [])
       = (AuthState.token (auth_after [tokenKey \<mapsto> []] []) \<noteq> None)"
    by blast
  then show False
    by (simp add: auth_after_def auth_initialState_def truthy_def)
qed

text \<open>
  C10, amended. When the token stored in \<open>localStorage\<close> at start-up is absent or a
  non-empty string, then in every state reachable from the initial state by any sequence of
  auth actions, \<open>isAuthenticated\<close> is true if and only if \<open>token\<close> is non-null.
\<close>

theorem auth_invariant:
  assumes "ls tokenKey \<noteq> Some []"
  shows "isAuthenticated (auth_after ls actions) = (AuthState.token (auth_after ls actions) \<noteq> None)"
proof -
  have "auth_consistent (auth_initialState ls)"
    using assms by (rule auth_initialState_consistent)
  then have "auth_consistent (foldl authReducer (auth_initialState ls) actions)"
    by (rule foldl_authReducer_consistent)
  then show ?thesis
    by (simp add: auth_after_def auth_consistent_def)
qed

theorem auth_invariant_witness:
  "[tokenKey \<mapsto> ''t0''] tokenKey \<noteq> Some []
   \<and> isAuthenticated (auth_after [tokenKey \<mapsto> ''t0''] [Logout, ClearError])
       = (AuthState.token (auth_after [tokenKey \<mapsto> ''t0''] [Logout, ClearError]) \<noteq> None)
   \<and> \<not> isAuthenticated (auth_after [tokenKey \<mapsto> ''t0''] [Logout, ClearError])"
proof -
  have h: "[tokenKey \<mapsto> ''t0''] tokenKey \<noteq> Some []" by simp
  have "\<not> isAuthenticated (auth_after [tokenKey \<mapsto> ''t0''] [Logout, ClearError])"
    by (simp add: auth_after_def auth_clearError_def logout_def)
  with h auth_invariant [of "[tokenKey \<mapsto> ''t0'']" "[Logout, ClearError]"] show ?thesis
    by blast
qed

section \<open>Properties of the query handlers\<close>

lemma page_size_and_search_reset_page:
  "page (UsersState.tableState (handlePageSizeChange state n)) = 1
   \<and> pageSize (UsersState.tableState (handlePageSizeChange state n)) = n
   \<and> page (UsersState.tableState (updateSearch state t)) = 1
   \<and> TableState.search (UsersState.tableState (updateSearch state t)) = t
   \<and> page (ProductsPage.tableState (products_handlePageSizeChange st n)) = 1"
  by (simp add: handlePageSizeChange_def updateSearch_def setTableState_def
        merge_tableState_def no_change_def spread_def products_handlePageSizeChange_def)

lemma page_change_keeps_rest:
  "UsersState.tableState (handlePageChange state p) = (UsersState.tableState state)\<lparr>page := p\<rparr>
   \<and> handlePageChange state p
       = state\<lparr>UsersState.tableState := (UsersState.tableState state)\<lparr>page := p\<rparr>\<rparr>
   \<and> ProductsPage.tableState (products_handlePageChange st p)
       = (ProductsPage.tableState st)\<lparr>page := p\<rparr>"
  by (simp add: handlePageChange_def setTableState_def merge_tableState_def no_change_def
        spread_def products_handlePageChange_def)

lemma setTableState_without_page:
  "page_opt payload = None \<Longrightarrow>
     page (UsersState.tableState (setTableState state payload)) = page (UsersState.tableState state)"
  by (simp add: setTableState_def merge_tableState_def spread_def)

text \<open>
  C4. The page-size handler and the search effect send \<open>page: 1\<close> along with the change, and
  the page handler changes \<open>page\<close> only (the two lemmas above). The category filter of the
  products page is the case that is missed: choosing a category changes the filter of the
  next fetch and leaves the page where it was. Here the table is on page 3 and the
  category ``Books'' is chosen: the fetch asks for page 3 of the filtered collection.
\<close>

theorem category_change_keeps_page:
  "page (fetchProducts_args
      (setCategoryFilter
         \<lparr> tableState = \<lparr> page = 3, pageSize = 25, sort = None, filters = [], search = [] \<rparr>,
           debouncedSearch = [],
           categoryFilter = [] \<rparr>
         ''Books'')) = 3
   \<and> category (fetchProducts_args
      (setCategoryFilter
         \<lparr> tableState = \<lparr> page = 3, pageSize = 25, sort = None, filters = [], search = [] \<rparr>,
           debouncedSearch = [],
           categoryFilter = [] \<rparr>
         ''Books'')) = ''Books''"
  by (simp add: fetchProducts_args_def setCategoryFilter_def)

section \<open>Properties of paging\<close>

lemma Math_ceil_div_eq: "Math_ceil_div a b = - ((- a) div b)"
  unfolding Math_ceil_div_def by (rule ceiling_divide_eq_div)

lemma Math_ceil_div_bounds:
  assumes "0 < b"
  shows "(Math_ceil_div a b - 1) * b < a \<and> a \<le> Math_ceil_div a b * b"
proof -
  have m: "(- a) mod b \<ge> 0" "(- a) mod b < b" using assms by simp_all
  have e: "- a = ((- a) div b) * b + (- a) mod b" by simp
  have c: "Math_ceil_div a b * b = - (((- a) div b) * b)"
    by (simp add: Math_ceil_div_eq)
  from e have "a = - (((- a) div b) * b) - (- a) mod b" by linarith
  with c have a: "a = Math_ceil_div a b * b - (- a) mod b" by simp
  have "(Math_ceil_div a b - 1) * b = Math_ceil_div a b * b - b"
    by (simp add: algebra_simps)
  with a m show ?thesis by linarith
qed

lemma Math_ceil_div_least:
  assumes "0 < b" "a \<le> n * b"
  shows "Math_ceil_div a b \<le> n"
proof (rule ccontr)
  assume "\<not> Math_ceil_div a b \<le> n"
  then have "n \<le> Math_ceil_div a b - 1" by simp
  then have "n * b \<le> (Math_ceil_div a b - 1) * b"
    using assms(1) by (simp add: mult_right_mono)
  with Math_ceil_div_bounds [OF assms(1), of a] assms(2) show False by linarith
qed


lemma slice_beyond_end:
  "int (length xs) \<le> i \<Longrightarrow> 0 \<le> j \<Longrightarrow> slice xs i j = []"
  by (simp add: slice_def Let_def)

text \<open>
  C7. For a positive page size, the page returned by \<open>getUsers\<close> has \<open>total\<close> equal to the
  number of users matching the query (so \<open>total \<ge> 0\<close>), and \<open>totalPages\<close> is the ceiling of
  \<open>total / pageSize\<close>: the one integer \<open>n\<close> with \<open>(n - 1) * pageSize < total \<le> n * pageSize\<close>.
  The pagination hook computes the same number from the same two inputs.
\<close>

theorem getUsers_totalPages:
  assumes "0 < ps"
  shows "total (PaginatedResponse.pagination (getUsers toLowerCase mockUsers p ps s))
           = int (length (filtered_users toLowerCase mockUsers s))
       \<and> 0 \<le> total (PaginatedResponse.pagination (getUsers toLowerCase mockUsers p ps s))
       \<and> pageSize (PaginatedResponse.pagination (getUsers toLowerCase mockUsers p ps s)) = ps
       \<and> totalPages (PaginatedResponse.pagination (getUsers toLowerCase mockUsers p ps s))
           = \<lceil>real_of_int (total (PaginatedResponse.pagination (getUsers toLowerCase mockUsers p ps s)))
               / real_of_int ps\<rceil>
       \<and> (totalPages (PaginatedResponse.pagination (getUsers toLowerCase mockUsers p ps s)) - 1) * ps
           < total (PaginatedResponse.pagination (getUsers toLowerCase mockUsers p ps s))
       \<and> total (PaginatedResponse.pagination (getUsers toLowerCase mockUsers p ps s))
           \<le> totalPages (PaginatedResponse.pagination (getUsers toLowerCase mockUsers p ps s)) * ps
       \<and> hook_totalPages (total (PaginatedResponse.pagination (getUsers toLowerCase mockUsers p ps s)))
            (usePagination_init p ps)
           = totalPages (PaginatedResponse.pagination (getUsers toLowerCase mockUsers p ps s))"
  using Math_ceil_div_bounds [OF assms, of "int (length (filtered_users toLowerCase mockUsers s))"]
  by (simp add: getUsers_def Let_def hook_totalPages_def usePagination_init_def
        Math_ceil_div_def)

theorem getUsers_totalPages_witness:
  "(0::int) < 25
   \<and> total (PaginatedResponse.pagination (getUsers toLowerCase_ascii (replicate 137 (demo_admin ''t'')) 7 25 [])) = 137
   \<and> totalPages (PaginatedResponse.pagination (getUsers toLowerCase_ascii (replicate 137 (demo_admin ''t'')) 7 25 []))
       = 6
   \<and> data (getUsers toLowerCase_ascii (replicate 137 (demo_admin ''t'')) 7 25 []) = []"
proof -
  let ?r = "getUsers toLowerCase_ascii (replicate 137 (demo_admin ''t'')) 7 25 []"
  have h: "(0::int) < 25" by simp
  note t = getUsers_totalPages [OF h, of toLowerCase_ascii "replicate 137 (demo_admin ''t'')" 7 "[]"]
  have tot: "total (PaginatedResponse.pagination ?r) = 137"
    using t by (simp add: filtered_users_def)
  from t tot have "(totalPages (PaginatedResponse.pagination ?r) - 1) * 25 < 137"
    and "137 \<le> totalPages (PaginatedResponse.pagination ?r) * 25"
    by simp_all
  then have tp: "totalPages (PaginatedResponse.pagination ?r) = 6" by presburger
  have d: "data ?r = []"
    by (simp add: getUsers_def Let_def filtered_users_def slice_beyond_end)
  from h tot tp d show ?thesis by blast
qed









section \<open>Properties of the authenticated transport\<close>

lemma run_alone:
  "(case start a api of (t0, s0) \<Rightarrow>
      case resume env t0 s0 of (t1, s1) \<Rightarrow>
      case resume env t1 s1 of (t2, s2) \<Rightarrow> resume env t2 s2)
   = (Returned (fst (baseQueryWithReauth a env api)), snd (baseQueryWithReauth a env api))"
  by (simp add: start_def baseQueryWithReauth_def baseQuery_def Let_def send_def dispatch_def
        split: QueryResult.splits)

lemma reauth_refresh_failed:
  assumes "is_401 (first_response env)"
    and "truthy (AuthState.refreshToken (auth api))"
    and "\<forall>authData. refresh_response env \<noteq> QData authData"
  shows "baseQueryWithReauth a env api
     = (first_response env,
        dispatch Logout
          (send Refresh (refresh_args (the (AuthState.refreshToken (auth api))))
             (send Original a api)))"
  using assms
  by (simp add: baseQueryWithReauth_def baseQuery_def Let_def send_def
        split: QueryResult.splits)

lemma reauth_refresh_ok:
  assumes "is_401 (first_response env)"
    and "truthy (AuthState.refreshToken (auth api))"
    and "refresh_response env = QData authData"
  shows "baseQueryWithReauth a env api
     = (retry_response env,
        send Retry a
          (dispatch (SetCredentials authData)
             (send Refresh (refresh_args (the (AuthState.refreshToken (auth api))))
                (send Original a api))))"
  using assms
  by (simp add: baseQueryWithReauth_def baseQuery_def Let_def send_def)

lemma reauth_no_token:
  assumes "is_401 (first_response env)"
    and "\<not> truthy (AuthState.refreshToken (auth api))"
  shows "baseQueryWithReauth a env api
     = (first_response env, dispatch Logout (send Original a api))"
  using assms
  by (simp add: baseQueryWithReauth_def baseQuery_def Let_def send_def)

lemma reauth_not_401:
  assumes "\<not> is_401 (first_response env)"
  shows "baseQueryWithReauth a env api = (first_response env, send Original a api)"
  using assms
  by (simp add: baseQueryWithReauth_def baseQuery_def Let_def)

lemma calls_of_send:
  "calls_of k (send k' a api) = calls_of k api + (if k = k' then 1 else 0)"
  by (simp add: calls_of_def send_def)

lemma calls_of_dispatch: "calls_of k (dispatch act api) = calls_of k api"
  by (simp add: calls_of_def dispatch_def)

lemma logout_signals_send: "logout_signals (send k a api) = logout_signals api"
  by (simp add: logout_signals_def send_def)

lemma logout_signals_dispatch:
  "logout_signals (dispatch act api) = logout_signals api + (if act = Logout then 1 else 0)"
  by (simp add: logout_signals_def dispatch_def)

text \<open>
  C2. A request whose first response is a 401, sent while the state holds a (truthy)
  refresh token, issues exactly one refresh call. When the refresh succeeds, the new
  credentials are stored and the original request is sent again exactly once, with the new
  token; whatever comes back, a second 401 included, is the result, and the log of calls
  shows nothing after the retry: no second refresh. When the refresh fails there is no
  retry, and the first 401 is the result.
\<close>

theorem single_401_refresh_once:
  assumes "is_401 (first_response env)"
    and "truthy (AuthState.refreshToken (auth api))"
  shows "calls_of Refresh (snd (baseQueryWithReauth a env api)) = calls_of Refresh api + 1
    \<and> calls_of Original (snd (baseQueryWithReauth a env api)) = calls_of Original api + 1
    \<and> (\<forall>authData. refresh_response env = QData authData \<longrightarrow>
          fst (baseQueryWithReauth a env api) = retry_response env
          \<and> calls_of Retry (snd (baseQueryWithReauth a env api)) = calls_of Retry api + 1
          \<and> sent (snd (baseQueryWithReauth a env api))
              = sent api
                @ [\<lparr> kind = Original, args = a, authorization = prepareHeaders api \<rparr>,
                   \<lparr> kind = Refresh,
                     args = refresh_args (the (AuthState.refreshToken (auth api))),
                     authorization = prepareHeaders api \<rparr>,
                   \<lparr> kind = Retry, args = a,
                     authorization =
                       (if AuthResponse.token authData \<noteq> []
                        then Some (''Bearer '' @ AuthResponse.token authData) else None) \<rparr>]
          \<and> dispatched (snd (baseQueryWithReauth a env api))
              = dispatched api @ [SetCredentials authData])
    \<and> ((\<forall>authData. refresh_response env \<noteq> QData authData) \<longrightarrow>
          fst (baseQueryWithReauth a env api) = first_response env
          \<and> calls_of Retry (snd (baseQueryWithReauth a env api)) = calls_of Retry api)"
proof -
  have ok: "\<And>authData. refresh_response env = QData authData \<Longrightarrow>
     calls_of Refresh (snd (baseQueryWithReauth a env api)) = calls_of Refresh api + 1
     \<and> calls_of Original (snd (baseQueryWithReauth a env api)) = calls_of Original api + 1
     \<and> fst (baseQueryWithReauth a env api) = retry_response env
     \<and> calls_of Retry (snd (baseQueryWithReauth a env api)) = calls_of Retry api + 1
     \<and> sent (snd (baseQueryWithReauth a env api))
              = sent api
                @ [\<lparr> kind = Original, args = a, authorization = prepareHeaders api \<rparr>,
                   \<lparr> kind = Refresh,
                     args = refresh_args (the (AuthState.refreshToken (auth api))),
                     authorization = prepareHeaders api \<rparr>,
                   \<lparr> kind = Retry, args = a,
                     authorization =
                       (if AuthResponse.token authData \<noteq> []
                        then Some (''Bearer '' @ AuthResponse.token authData) else None) \<rparr>]
     \<and> dispatched (snd (baseQueryWithReauth a env api))
              = dispatched api @ [SetCredentials authData]"
    by (simp add: reauth_refresh_ok [OF assms] calls_of_send calls_of_dispatch)
       (simp add: send_def dispatch_def prepareHeaders_def setCredentials_def truthy_def)
  have failed: "(\<forall>authData. refresh_response env \<noteq> QData authData) \<Longrightarrow>
     calls_of Refresh (snd (baseQueryWithReauth a env api)) = calls_of Refresh api + 1
     \<and> calls_of Original (snd (baseQueryWithReauth a env api)) = calls_of Original api + 1
     \<and> fst (baseQueryWithReauth a env api) = first_response env
     \<and> calls_of Retry (snd (baseQueryWithReauth a env api)) = calls_of Retry api"
    by (simp add: reauth_refresh_failed [OF assms] calls_of_send calls_of_dispatch)
  show ?thesis
  proof (cases "\<exists>authData. refresh_response env = QData authData")
    case True
    then obtain d where d: "refresh_response env = QData d" by blast
    from ok [OF d] d show ?thesis by simp
  next
    case False
    then have "\<forall>authData. refresh_response env \<noteq> QData authData" by blast
    from failed [OF this] this show ?thesis by simp
  qed
qed

text \<open>
  C3. When the first response is a 401 and either the state holds no (truthy) refresh token
  or the refresh call yields no data, the transport dispatches \<open>logout\<close> once, after which
  \<open>token\<close> and \<open>refreshToken\<close> are null, \<open>isAuthenticated\<close> is false and both keys are gone
  from \<open>localStorage\<close>; the request is not retried and returns the 401.
\<close>

theorem forced_logout_clears_credentials:
  assumes "is_401 (first_response env)"
    and "\<not> truthy (AuthState.refreshToken (auth api))
         \<or> (\<forall>authData. refresh_response env \<noteq> QData authData)"
  shows "AuthState.token (auth (snd (baseQueryWithReauth a env api))) = None
    \<and> AuthState.refreshToken (auth (snd (baseQueryWithReauth a env api))) = None
    \<and> \<not> isAuthenticated (auth (snd (baseQueryWithReauth a env api)))
    \<and> dispatched (snd (baseQueryWithReauth a env api)) = dispatched api @ [Logout]
    \<and> logout_signals (snd (baseQueryWithReauth a env api)) = logout_signals api + 1
    \<and> localStorage (snd (baseQueryWithReauth a env api)) tokenKey = None
    \<and> localStorage (snd (baseQueryWithReauth a env api)) refreshTokenKey = None
    \<and> calls_of Retry (snd (baseQueryWithReauth a env api)) = calls_of Retry api
    \<and> fst (baseQueryWithReauth a env api) = first_response env"
proof (cases "truthy (AuthState.refreshToken (auth api))")
  case True
  with assms(2) have f: "\<forall>authData. refresh_response env \<noteq> QData authData" by blast
  show ?thesis
    by (simp add: reauth_refresh_failed [OF assms(1) True f] logout_signals_dispatch
          logout_signals_send calls_of_send calls_of_dispatch)
       (simp add: dispatch_def send_def logout_def logout_localStorage_def)
next
  case False
  show ?thesis
    by (simp add: reauth_no_token [OF assms(1) False] logout_signals_dispatch
          logout_signals_send calls_of_send calls_of_dispatch)
       (simp add: dispatch_def send_def logout_def logout_localStorage_def)
qed

theorem single_401_refresh_once_witness:
  "is_401 (first_response refreshed_then_401)
   \<and> truthy (AuthState.refreshToken (auth example_store))
   \<and> is_401 (fst (baseQueryWithReauth example_args refreshed_then_401 example_store))
   \<and> calls_of Refresh (snd (baseQueryWithReauth example_args refreshed_then_401 example_store)) = 1
   \<and> calls_of Retry (snd (baseQueryWithReauth example_args refreshed_then_401 example_store)) = 1
   \<and> length (sent (snd (baseQueryWithReauth example_args refreshed_then_401 example_store))) = 3
   \<and> dispatched (snd (baseQueryWithReauth example_args refreshed_then_401 example_store))
       = [SetCredentials example_authResponse]"
proof -
  have h1: "is_401 (first_response refreshed_then_401)"
    by (simp add: refreshed_then_401_def is_401_def)
  have h2: "truthy (AuthState.refreshToken (auth example_store))"
    by (simp add: example_store_def truthy_def)
  have r: "refresh_response refreshed_then_401 = QData example_authResponse"
    "retry_response refreshed_then_401 = QError (Http 401)"
    by (simp_all add: refreshed_then_401_def)
  have z: "calls_of Refresh example_store = 0" "calls_of Retry example_store = 0"
    "sent example_store = []" "dispatched example_store = []"
    by (simp_all add: calls_of_def example_store_def)
  note t = single_401_refresh_once [OF h1 h2, of example_args]
  from t r z h1 h2 show ?thesis by (simp add: is_401_def)
qed

theorem forced_logout_clears_credentials_witness:
  "is_401 (first_response all_401)
   \<and> AuthState.token (auth example_store) = Some ''t0''
   \<and> AuthState.token (auth (snd (baseQueryWithReauth example_args all_401 example_store))) = None
   \<and> AuthState.refreshToken (auth (snd (baseQueryWithReauth example_args all_401 example_store)))
       = None
   \<and> \<not> isAuthenticated (auth (snd (baseQueryWithReauth example_args all_401 example_store)))
   \<and> dispatched (snd (baseQueryWithReauth example_args all_401 example_store)) = [Logout]
   \<and> fst (baseQueryWithReauth example_args all_401 example_store) = QError (Http 401)"
proof -
  have h1: "is_401 (first_response all_401)"
    by (simp add: all_401_def is_401_def)
  have h2: "\<not> truthy (AuthState.refreshToken (auth example_store))
         \<or> (\<forall>authData. refresh_response all_401 \<noteq> QData authData)"
    by (simp add: all_401_def)
  have z: "dispatched example_store = []" "AuthState.token (auth example_store) = Some ''t0''"
    "first_response all_401 = QError (Http 401)"
    by (simp_all add: example_store_def all_401_def)
  note t = forced_logout_clears_credentials [OF h1 h2, of example_args]
  from t z h1 show ?thesis by simp
qed

subsection \<open>Requests in flight together\<close>

lemma sum_list_map_update:
  "i < length xs \<Longrightarrow>
     sum_list (map b (xs[i := t])) + b (xs ! i) = sum_list (map b xs) + (b t :: nat)"
proof (induction xs arbitrary: i)
  case Nil
  then show ?case by simp
next
  case (Cons x xs)
  show ?case
  proof (cases i)
    case 0
    then show ?thesis by simp
  next
    case (Suc j)
    with Cons.prems have "j < length xs" by simp
    from Cons.IH [OF this] Suc show ?thesis by simp
  qed
qed

lemma step_potential:
  assumes r: "\<And>env t api. c (snd (resume env t api)) + b (fst (resume env t api)) \<le> c api + (b t :: nat)"
  shows "c (snd (step envs sys i)) + sum_list (map b (fst (step envs sys i)))
           \<le> c (snd sys) + sum_list (map b (fst sys))"
proof (cases "i < length (fst sys) \<and> i < length envs")
  case False
  then have "step envs sys i = sys" by (auto simp add: step_def)
  then show ?thesis by simp
next
  case True
  obtain t api where res: "resume (envs ! i) (fst sys ! i) (snd sys) = (t, api)"
    by (cases "resume (envs ! i) (fst sys ! i) (snd sys)")
  have st: "step envs sys i = ((fst sys)[i := t], api)"
    using True res by (simp add: step_def)
  have "c api + b t \<le> c (snd sys) + b (fst sys ! i)"
    using r [of "envs ! i" "fst sys ! i" "snd sys"] res by simp
  moreover have "sum_list (map b ((fst sys)[i := t])) + b (fst sys ! i)
        = sum_list (map b (fst sys)) + b t"
    using True by (simp add: sum_list_map_update)
  ultimately show ?thesis unfolding st by simp
qed

lemma run_potential:
  assumes r: "\<And>env t api. c (snd (resume env t api)) + b (fst (resume env t api)) \<le> c api + (b t :: nat)"
  shows "c (snd (run envs schedule sys)) + sum_list (map b (fst (run envs schedule sys)))
           \<le> c (snd sys) + sum_list (map b (fst sys))"
proof (induction schedule arbitrary: sys)
  case Nil
  then show ?case by (simp add: run_def)
next
  case (Cons i schedule)
  have "run envs (i # schedule) sys = run envs schedule (step envs sys i)"
    by (simp add: run_def)
  with Cons.IH [of "step envs sys i"] step_potential [of c b envs sys i, OF r]
  show ?case by simp
qed

lemma resume_refresh_budget:
  "calls_of Refresh (snd (resume env t api)) + refresh_budget (fst (resume env t api))
     \<le> calls_of Refresh api + refresh_budget t"
  by (cases t)
     (simp_all add: Let_def calls_of_send calls_of_dispatch split: QueryResult.splits)

lemma resume_retry_budget:
  "calls_of Retry (snd (resume env t api)) + retry_budget (fst (resume env t api))
     \<le> calls_of Retry api + retry_budget t"
  by (cases t)
     (simp_all add: Let_def calls_of_send calls_of_dispatch split: QueryResult.splits)

lemma resume_logout_budget:
  "logout_signals (snd (resume env t api)) + retry_budget (fst (resume env t api))
     \<le> logout_signals api + retry_budget t"
  by (cases t)
     (simp_all add: Let_def logout_signals_send logout_signals_dispatch
        split: QueryResult.splits)

lemma start_all_tasks: "fst (start_all as api) = map AwaitFirst as"
  by (induction as arbitrary: api) (simp_all add: start_def split_beta)

lemma start_all_store:
  fixes as :: "FetchArgs list"
  defines "s \<equiv> \<lambda>api. snd (start_all as api :: 'r Task list \<times> Store)"
  shows "auth (s api) = auth api
   \<and> dispatched (s api) = dispatched api
   \<and> localStorage (s api) = localStorage api
   \<and> calls_of Refresh (s api) = calls_of Refresh api
   \<and> calls_of Retry (s api) = calls_of Retry api
   \<and> calls_of Original (s api) = calls_of Original api + length as
   \<and> logout_signals (s api) = logout_signals api"
  unfolding s_def
proof (induction as arbitrary: api)
  case Nil
  then show ?case by simp
next
  case (Cons a as)
  have "snd (start_all (a # as) api :: 'r Task list \<times> Store)
      = snd (start_all as (send Original a api) :: 'r Task list \<times> Store)"
    by (simp add: start_def split_beta)
  with Cons.IH [of "send Original a api"] show ?case
    by (simp add: calls_of_send logout_signals_send) (simp add: send_def)
qed

lemma sum_refresh_budget_start: "sum_list (map (refresh_budget \<circ> AwaitFirst) as) = length as"
  by (induction as) simp_all

lemma sum_retry_budget_start: "sum_list (map (retry_budget \<circ> AwaitFirst) as) = length as"
  by (induction as) simp_all

lemma any_schedule_bounds:
  "calls_of Refresh (snd (run envs schedule (start_all as api))) \<le> calls_of Refresh api + length as
   \<and> calls_of Retry (snd (run envs schedule (start_all as api))) \<le> calls_of Retry api + length as
   \<and> logout_signals (snd (run envs schedule (start_all as api))) \<le> logout_signals api + length as"
proof -
  let ?s = "start_all as api"
  have 1: "calls_of Refresh (snd (run envs schedule ?s)) \<le> calls_of Refresh api + length as"
    using run_potential [of "calls_of Refresh" refresh_budget envs schedule ?s,
        OF resume_refresh_budget]
    by (simp add: start_all_tasks start_all_store sum_refresh_budget_start)
  have 2: "calls_of Retry (snd (run envs schedule ?s)) \<le> calls_of Retry api + length as"
    using run_potential [of "calls_of Retry" retry_budget envs schedule ?s,
        OF resume_retry_budget]
    by (simp add: start_all_tasks start_all_store sum_retry_budget_start)
  have 3: "logout_signals (snd (run envs schedule ?s)) \<le> logout_signals api + length as"
    using run_potential [of logout_signals retry_budget envs schedule ?s,
        OF resume_logout_budget]
    by (simp add: start_all_tasks start_all_store sum_retry_budget_start)
  from 1 2 3 show ?thesis by blast
qed

lemma run_snoc: "run envs (schedule @ [i]) sys = step envs (run envs schedule sys) i"
  by (simp add: run_def)

lemma run_append: "run envs (s1 @ s2) sys = run envs s2 (run envs s1 sys)"
  by (simp add: run_def)

lemma step_at:
  assumes "i < length (fst sys)" "i < length envs"
  shows "fst (step envs sys i) = (fst sys)[i := fst (resume (envs ! i) (fst sys ! i) (snd sys))]"
    and "snd (step envs sys i) = snd (resume (envs ! i) (fst sys ! i) (snd sys))"
  using assms by (simp_all add: step_def split_beta)

text \<open>First round: every request receives its 401 while the refresh token is still there.\<close>

lemma all_receive_401:
  assumes len: "length envs = length as"
    and e401: "\<forall>i < length as. is_401 (first_response (envs ! i))"
    and rt: "truthy (AuthState.refreshToken (auth api))"
    and k: "k \<le> length as"
  shows "length (fst (run envs [0..<k] (map AwaitFirst as, api))) = length as
    \<and> (\<forall>i < length as. fst (run envs [0..<k] (map AwaitFirst as, api)) ! i
          = (if i < k then AwaitRefresh (as ! i) (first_response (envs ! i))
             else AwaitFirst (as ! i)))
    \<and> auth (snd (run envs [0..<k] (map AwaitFirst as, api))) = auth api
    \<and> dispatched (snd (run envs [0..<k] (map AwaitFirst as, api))) = dispatched api
    \<and> localStorage (snd (run envs [0..<k] (map AwaitFirst as, api))) = localStorage api
    \<and> calls_of Refresh (snd (run envs [0..<k] (map AwaitFirst as, api)))
        = calls_of Refresh api + k
    \<and> calls_of Retry (snd (run envs [0..<k] (map AwaitFirst as, api))) = calls_of Retry api"
  using k
proof (induction k)
  case 0
  then show ?case by (simp add: run_def)
next
  case (Suc k)
  let ?sys = "run envs [0..<k] (map AwaitFirst as, api)"
  from Suc have kl: "k < length as" by simp
  from Suc have IH: "length (fst ?sys) = length as"
    "\<forall>i < length as. fst ?sys ! i
          = (if i < k then AwaitRefresh (as ! i) (first_response (envs ! i))
             else AwaitFirst (as ! i))"
    "auth (snd ?sys) = auth api" "dispatched (snd ?sys) = dispatched api"
    "localStorage (snd ?sys) = localStorage api"
    "calls_of Refresh (snd ?sys) = calls_of Refresh api + k"
    "calls_of Retry (snd ?sys) = calls_of Retry api"
    by simp_all
  have r: "run envs [0..<Suc k] (map AwaitFirst as, api) = step envs ?sys k"
    by (simp add: run_snoc)
  have tk: "fst ?sys ! k = AwaitFirst (as ! k)" using IH(2) kl by simp
  have res: "resume (envs ! k) (fst ?sys ! k) (snd ?sys)
      = (AwaitRefresh (as ! k) (first_response (envs ! k)),
         send Refresh (refresh_args (the (AuthState.refreshToken (auth api)))) (snd ?sys))"
    using e401 kl rt by (simp add: tk IH(3) Let_def)
  have f: "fst (step envs ?sys k)
      = (fst ?sys)[k := AwaitRefresh (as ! k) (first_response (envs ! k))]"
    using step_at(1) [of k ?sys envs] kl len IH(1) res by simp
  have s: "snd (step envs ?sys k)
      = send Refresh (refresh_args (the (AuthState.refreshToken (auth api)))) (snd ?sys)"
    using step_at(2) [of k ?sys envs] kl len IH(1) res by simp
  have c1: "length (fst (step envs ?sys k)) = length as" by (simp add: f IH(1))
  have c2: "\<forall>i < length as. fst (step envs ?sys k) ! i
          = (if i < Suc k then AwaitRefresh (as ! i) (first_response (envs ! i))
             else AwaitFirst (as ! i))"
    using IH(1) IH(2) by (auto simp add: f nth_list_update less_Suc_eq)
  have c3: "auth (snd (step envs ?sys k)) = auth api"
    "dispatched (snd (step envs ?sys k)) = dispatched api"
    "localStorage (snd (step envs ?sys k)) = localStorage api"
    using IH(3,4,5) by (simp_all add: s send_def)
  have c4: "calls_of Refresh (snd (step envs ?sys k)) = calls_of Refresh api + Suc k"
    "calls_of Retry (snd (step envs ?sys k)) = calls_of Retry api"
    using IH(6,7) by (simp_all add: s calls_of_send)
  from c1 c2 c3 c4 show ?case unfolding r by blast
qed

text \<open>Second round: every refresh fails.\<close>

lemma all_refreshes_fail:
  assumes len: "length envs = length ts"
    and ts: "\<forall>i < length ts. ts ! i = AwaitRefresh (as ! i) (res i)"
    and fail: "\<forall>i < length ts. \<forall>authData. refresh_response (envs ! i) \<noteq> QData authData"
    and k: "k \<le> length ts"
  shows "length (fst (run envs [0..<k] (ts, api))) = length ts
    \<and> (\<forall>i < length ts. fst (run envs [0..<k] (ts, api)) ! i
          = (if i < k then Returned (res i) else AwaitRefresh (as ! i) (res i)))
    \<and> logout_signals (snd (run envs [0..<k] (ts, api))) = logout_signals api + k
    \<and> calls_of Refresh (snd (run envs [0..<k] (ts, api))) = calls_of Refresh api
    \<and> calls_of Retry (snd (run envs [0..<k] (ts, api))) = calls_of Retry api
    \<and> (0 < k \<longrightarrow> AuthState.token (auth (snd (run envs [0..<k] (ts, api)))) = None
          \<and> AuthState.refreshToken (auth (snd (run envs [0..<k] (ts, api)))) = None
          \<and> \<not> isAuthenticated (auth (snd (run envs [0..<k] (ts, api)))))"
  using k
proof (induction k)
  case 0
  then show ?case using ts by (simp add: run_def)
next
  case (Suc k)
  let ?sys = "run envs [0..<k] (ts, api)"
  from Suc have kl: "k < length ts" by simp
  from Suc have IH: "length (fst ?sys) = length ts"
    "\<forall>i < length ts. fst ?sys ! i
          = (if i < k then Returned (res i) else AwaitRefresh (as ! i) (res i))"
    "logout_signals (snd ?sys) = logout_signals api + k"
    "calls_of Refresh (snd ?sys) = calls_of Refresh api"
    "calls_of Retry (snd ?sys) = calls_of Retry api"
    by simp_all
  have r: "run envs [0..<Suc k] (ts, api) = step envs ?sys k"
    by (simp add: run_snoc)
  have tk: "fst ?sys ! k = AwaitRefresh (as ! k) (res k)" using IH(2) kl by simp
  have res: "resume (envs ! k) (fst ?sys ! k) (snd ?sys)
      = (Returned (res k), dispatch Logout (snd ?sys))"
    using fail kl by (simp add: tk split: QueryResult.splits)
  have f: "fst (step envs ?sys k) = (fst ?sys)[k := Returned (res k)]"
    using step_at(1) [of k ?sys envs] kl len IH(1) res by simp
  have s: "snd (step envs ?sys k) = dispatch Logout (snd ?sys)"
    using step_at(2) [of k ?sys envs] kl len IH(1) res by simp
  have c1: "length (fst (step envs ?sys k)) = length ts" by (simp add: f IH(1))
  have c2: "\<forall>i < length ts. fst (step envs ?sys k) ! i
          = (if i < Suc k then Returned (res i) else AwaitRefresh (as ! i) (res i))"
    using IH(1) IH(2) by (auto simp add: f nth_list_update less_Suc_eq)
  have c3: "logout_signals (snd (step envs ?sys k)) = logout_signals api + Suc k"
    "calls_of Refresh (snd (step envs ?sys k)) = calls_of Refresh api"
    "calls_of Retry (snd (step envs ?sys k)) = calls_of Retry api"
    using IH(3,4,5) by (simp_all add: s logout_signals_dispatch calls_of_dispatch)
  have c4: "AuthState.token (auth (snd (step envs ?sys k))) = None
          \<and> AuthState.refreshToken (auth (snd (step envs ?sys k))) = None
          \<and> \<not> isAuthenticated (auth (snd (step envs ?sys k)))"
    by (simp add: s dispatch_def logout_def)
  from c1 c2 c3 c4 show ?case unfolding r by blast
qed

text \<open>
  C1, as stated, fails already for two requests: both are in flight, both receive a 401,
  and each of them sends its own refresh call; both refreshes fail and each request
  dispatches \<open>logout\<close>. Two refresh calls and two logout signals, where the claim allows
  one of each.
\<close>

theorem two_requests_two_refreshes:
  "calls_of Refresh
     (snd (run [all_401, all_401] [0, 1, 0, 1]
             (start_all [example_args, example_args] example_store))) = 2
   \<and> logout_signals
     (snd (run [all_401, all_401] [0, 1, 0, 1]
             (start_all [example_args, example_args] example_store))) = 2
   \<and> fst (run [all_401, all_401] [0, 1, 0, 1]
             (start_all [example_args, example_args] example_store))
       = [Returned (QError (Http 401)), Returned (QError (Http 401))]"
  by (simp add: run_def step_def start_def Let_def all_401_def is_401_def example_store_def
        truthy_def calls_of_def logout_signals_def send_def dispatch_def logout_def)

text \<open>
  C1, amended. \<open>N\<close> requests are in flight and all receive a 401 while the refresh token is
  present. Each request sends its own refresh call: \<open>N\<close> calls once every 401 has arrived.
  Under any order of arrival of the responses there are at most \<open>N\<close> refresh calls, at most
  \<open>N\<close> retried requests and at most \<open>N\<close> logout actions: one refresh and one retry per
  request at most. If every refresh fails, every request returns its 401, none is retried,
  and \<open>logout\<close> is dispatched once per request, \<open>N\<close> times in all.
\<close>

theorem concurrent_401_one_refresh_per_request:
  assumes len: "length envs = length as"
    and e401: "\<forall>i < length as. is_401 (first_response (envs ! i))"
    and rt: "truthy (AuthState.refreshToken (auth api))"
  shows "calls_of Refresh (snd (run envs [0..<length as] (start_all as api)))
           = calls_of Refresh api + length as
    \<and> (\<forall>schedule.
          calls_of Refresh (snd (run envs schedule (start_all as api)))
            \<le> calls_of Refresh api + length as
          \<and> calls_of Retry (snd (run envs schedule (start_all as api)))
            \<le> calls_of Retry api + length as
          \<and> logout_signals (snd (run envs schedule (start_all as api)))
            \<le> logout_signals api + length as)
    \<and> ((\<forall>i < length as. \<forall>authData. refresh_response (envs ! i) \<noteq> QData authData) \<longrightarrow>
          length (fst (run envs ([0..<length as] @ [0..<length as]) (start_all as api)))
            = length as
          \<and> (\<forall>i < length as.
                fst (run envs ([0..<length as] @ [0..<length as]) (start_all as api)) ! i
                  = Returned (first_response (envs ! i)))
          \<and> calls_of Refresh
               (snd (run envs ([0..<length as] @ [0..<length as]) (start_all as api)))
              = calls_of Refresh api + length as
          \<and> calls_of Retry
               (snd (run envs ([0..<length as] @ [0..<length as]) (start_all as api)))
              = calls_of Retry api
          \<and> logout_signals
               (snd (run envs ([0..<length as] @ [0..<length as]) (start_all as api)))
              = logout_signals api + length as)"
proof -
  let ?n = "length as"
  let ?s0 = "start_all as api :: 'a Task list \<times> Store"
  let ?api0 = "snd ?s0"
  have s0: "?s0 = (map AwaitFirst as, ?api0)"
    using start_all_tasks [of as api] by (simp add: prod_eq_iff)
  have st: "auth ?api0 = auth api" "calls_of Refresh ?api0 = calls_of Refresh api"
    "calls_of Retry ?api0 = calls_of Retry api" "logout_signals ?api0 = logout_signals api"
    using start_all_store [of as api, where ?'r = 'a] by simp_all
  have rt0: "truthy (AuthState.refreshToken (auth ?api0))" using rt st(1) by simp
  let ?s1 = "run envs [0..<?n] ?s0"
  note p1 = all_receive_401 [OF len e401 rt0 le_refl]
  have p1': "length (fst ?s1) = ?n"
    "\<forall>i < ?n. fst ?s1 ! i = AwaitRefresh (as ! i) (first_response (envs ! i))"
    "calls_of Refresh (snd ?s1) = calls_of Refresh api + ?n"
    "calls_of Retry (snd ?s1) = calls_of Retry api"
    "dispatched (snd ?s1) = dispatched ?api0"
    using p1 st by (simp_all add: s0 [symmetric])
  have a: "calls_of Refresh (snd ?s1) = calls_of Refresh api + ?n" by (rule p1'(3))
  have b: "\<forall>schedule.
          calls_of Refresh (snd (run envs schedule ?s0)) \<le> calls_of Refresh api + ?n
          \<and> calls_of Retry (snd (run envs schedule ?s0)) \<le> calls_of Retry api + ?n
          \<and> logout_signals (snd (run envs schedule ?s0)) \<le> logout_signals api + ?n"
    using any_schedule_bounds [of envs _ as api] by blast
  have c: "length (fst (run envs ([0..<?n] @ [0..<?n]) ?s0)) = ?n
          \<and> (\<forall>i < ?n. fst (run envs ([0..<?n] @ [0..<?n]) ?s0) ! i
                  = Returned (first_response (envs ! i)))
          \<and> calls_of Refresh (snd (run envs ([0..<?n] @ [0..<?n]) ?s0))
              = calls_of Refresh api + ?n
          \<and> calls_of Retry (snd (run envs ([0..<?n] @ [0..<?n]) ?s0)) = calls_of Retry api
          \<and> logout_signals (snd (run envs ([0..<?n] @ [0..<?n]) ?s0))
              = logout_signals api + ?n"
    if fail: "\<forall>i < ?n. \<forall>authData. refresh_response (envs ! i) \<noteq> QData authData"
  proof -
    have ls1: "logout_signals (snd ?s1) = logout_signals api"
      using p1'(5) start_all_store [of as api, where ?'r = 'a]
      by (simp add: logout_signals_def)
    have len1: "length envs = length (fst ?s1)" using len p1'(1) by simp
    have ts1: "\<forall>i < length (fst ?s1). fst ?s1 ! i
         = AwaitRefresh (as ! i) (first_response (envs ! i))"
      using p1'(1,2) by simp
    have fail1: "\<forall>i < length (fst ?s1). \<forall>authData. refresh_response (envs ! i) \<noteq> QData authData"
      using fail p1'(1) by simp
    have k1: "?n \<le> length (fst ?s1)" using p1'(1) by simp
    note p2 = all_refreshes_fail [of envs "fst ?s1" as "\<lambda>i. first_response (envs ! i)" ?n "snd ?s1",
        OF len1 ts1 fail1 k1]
    have r: "run envs ([0..<?n] @ [0..<?n]) ?s0 = run envs [0..<?n] (fst ?s1, snd ?s1)"
      by (simp add: run_append)
    from p2 p1' ls1 show ?thesis unfolding r by simp
  qed
  from a b c show ?thesis by blast
qed

theorem concurrent_401_one_refresh_per_request_witness:
  "length (replicate 2 all_401) = length (replicate 2 example_args)
   \<and> truthy (AuthState.refreshToken (auth example_store))
   \<and> calls_of Refresh
       (snd (run (replicate 2 all_401) [0..<2] (start_all (replicate 2 example_args) example_store)))
       = 2
   \<and> logout_signals
       (snd (run (replicate 2 all_401) ([0..<2] @ [0..<2])
               (start_all (replicate 2 example_args) example_store))) = 2
   \<and> calls_of Retry
       (snd (run (replicate 2 all_401) ([0..<2] @ [0..<2])
               (start_all (replicate 2 example_args) example_store))) = 0"
proof -
  let ?envs = "replicate 2 all_401"
  let ?as = "replicate 2 example_args"
  have h1: "length ?envs = length ?as" by simp
  have h2: "\<forall>i < length ?as. is_401 (first_response (?envs ! i))"
    by (simp add: all_401_def is_401_def)
  have h3: "truthy (AuthState.refreshToken (auth example_store))"
    by (simp add: example_store_def truthy_def)
  have h4: "\<forall>i < length ?as. \<forall>authData. refresh_response (?envs ! i) \<noteq> QData authData"
    by (simp add: all_401_def)
  have z: "calls_of Refresh example_store = 0" "calls_of Retry example_store = 0"
    "logout_signals example_store = 0"
    by (simp_all add: calls_of_def logout_signals_def example_store_def)
  note t = concurrent_401_one_refresh_per_request [OF h1 h2 h3]
  from t h4 z h1 h3 show ?thesis by simp
qed

end
